theory Spec2Isabelle
  imports Complex_Main
begin

section \<open>Float values\<close>

text \<open>
  The notebook computes on JAX float arrays. A float is modelled as a finite real number
  or one of the three special values of IEEE 754; the special values follow the IEEE rules
  (\<open>0 / 0\<close>, \<open>inf * 0\<close> and \<open>inf - inf\<close> are NaN, NaN propagates, no operation raises).
  On finite values sums, products and quotients are exact: their rounding, their
  overflow and the sign of zero are not modelled. The properties proved below are
  equalities between two runs, orderings, special values and products with \<open>0.0\<close> and
  \<open>1.0\<close>, which hold of the rounded operations as well.
\<close>

datatype fval = Fin real | PInf | NInf | NaN

fun is_finite :: "fval \<Rightarrow> bool" where
  "is_finite (Fin x) = True"
| "is_finite PInf = False"
| "is_finite NInf = False"
| "is_finite NaN = False"

fun real_of :: "fval \<Rightarrow> real" where
  "real_of (Fin x) = x"
| "real_of PInf = 0"
| "real_of NInf = 0"
| "real_of NaN = 0"

fun fneg :: "fval \<Rightarrow> fval" where
  "fneg (Fin x) = Fin (- x)"
| "fneg PInf = NInf"
| "fneg NInf = PInf"
| "fneg NaN = NaN"

fun fadd :: "fval \<Rightarrow> fval \<Rightarrow> fval" where
  "fadd (Fin x) (Fin y) = Fin (x + y)"
| "fadd (Fin x) PInf = PInf"
| "fadd (Fin x) NInf = NInf"
| "fadd PInf (Fin y) = PInf"
| "fadd PInf PInf = PInf"
| "fadd PInf NInf = NaN"
| "fadd NInf (Fin y) = NInf"
| "fadd NInf NInf = NInf"
| "fadd NInf PInf = NaN"
| "fadd NaN y = NaN"
| "fadd x NaN = NaN"

definition fsub :: "fval \<Rightarrow> fval \<Rightarrow> fval" where
  "fsub x y = fadd x (fneg y)"

fun fmul :: "fval \<Rightarrow> fval \<Rightarrow> fval" where
  "fmul (Fin x) (Fin y) = Fin (x * y)"
| "fmul (Fin x) PInf = (if x = 0 then NaN else if 0 < x then PInf else NInf)"
| "fmul (Fin x) NInf = (if x = 0 then NaN else if 0 < x then NInf else PInf)"
| "fmul PInf (Fin y) = (if y = 0 then NaN else if 0 < y then PInf else NInf)"
| "fmul NInf (Fin y) = (if y = 0 then NaN else if 0 < y then NInf else PInf)"
| "fmul PInf PInf = PInf"
| "fmul PInf NInf = NInf"
| "fmul NInf PInf = NInf"
| "fmul NInf NInf = PInf"
| "fmul NaN y = NaN"
| "fmul x NaN = NaN"

text \<open>
  Division by a finite zero: \<open>0 / 0\<close> is NaN, and a nonzero numerator gives an infinity
  (the zero is taken as \<open>+0.0\<close>, which is what a sum of non-negative terms is).
\<close>

fun fdiv :: "fval \<Rightarrow> fval \<Rightarrow> fval" where
  "fdiv (Fin x) (Fin y) =
     (if y \<noteq> 0 then Fin (x / y)
      else if x = 0 then NaN else if 0 < x then PInf else NInf)"
| "fdiv (Fin x) PInf = Fin 0"
| "fdiv (Fin x) NInf = Fin 0"
| "fdiv PInf (Fin y) = (if 0 \<le> y then PInf else NInf)"
| "fdiv NInf (Fin y) = (if 0 \<le> y then NInf else PInf)"
| "fdiv PInf PInf = NaN"
| "fdiv PInf NInf = NaN"
| "fdiv NInf PInf = NaN"
| "fdiv NInf NInf = NaN"
| "fdiv NaN y = NaN"
| "fdiv x NaN = NaN"

text \<open>
  \<open>np.exp\<close> overflows to \<open>inf\<close> once the exponential leaves the range of the float
  format, whose finite values are below \<open>2 ^ 128\<close>.
\<close>

fun fexp :: "fval \<Rightarrow> fval" where
  "fexp (Fin x) = (if exp x < 2 ^ 128 then Fin (exp x) else PInf)"
| "fexp PInf = PInf"
| "fexp NInf = Fin 0"
| "fexp NaN = NaN"

declare fexp.simps(1) [simp del]

text \<open>IEEE comparison \<open>\<le>\<close>: false as soon as one side is NaN.\<close>

fun fle :: "fval \<Rightarrow> fval \<Rightarrow> bool" where
  "fle (Fin x) (Fin y) = (x \<le> y)"
| "fle (Fin x) PInf = True"
| "fle (Fin x) NInf = False"
| "fle PInf (Fin y) = False"
| "fle PInf PInf = True"
| "fle PInf NInf = False"
| "fle NInf (Fin y) = True"
| "fle NInf PInf = True"
| "fle NInf NInf = True"
| "fle NaN y = False"
| "fle x NaN = False"

text \<open>A reduction \<open>np.sum\<close> starts from \<open>0.0\<close> and adds the elements.\<close>

definition fsum :: "fval list \<Rightarrow> fval" where
  "fsum xs = foldr fadd xs (Fin 0)"

section \<open>Arrays\<close>

text \<open>
  An array is its shape and its elements, as nested lists in row-major order. A
  well-formed array has exactly the elements its shape says.
\<close>

record 'a array2 =
  shape2 :: "nat \<times> nat"
  data2 :: "'a list list"

record 'a array3 =
  shape3 :: "nat \<times> nat \<times> nat"
  data3 :: "'a list list list"

definition wf2 :: "'a array2 \<Rightarrow> bool" where
  "wf2 a \<longleftrightarrow>
     length (data2 a) = fst (shape2 a) \<and>
     (\<forall>r \<in> set (data2 a). length r = snd (shape2 a))"

definition wf3 :: "'a array3 \<Rightarrow> bool" where
  "wf3 a \<longleftrightarrow>
     length (data3 a) = fst (shape3 a) \<and>
     (\<forall>r \<in> set (data3 a). length r = fst (snd (shape3 a)) \<and>
        (\<forall>c \<in> set r. length c = snd (snd (shape3 a))))"

definition finite3 :: "fval array3 \<Rightarrow> bool" where
  "finite3 a \<longleftrightarrow> (\<forall>r \<in> set (data3 a). \<forall>c \<in> set r. \<forall>x \<in> set c. is_finite x)"

datatype error = ShapeMismatch | IndexOutOfRange | DivisionByZero

text \<open>
  Broadcasting of an elementwise operation: two dimensions are compatible when they are
  equal or one of them is 1, and the axis of length 1 is repeated. Incompatible shapes
  raise.
\<close>

definition broadcast_dim :: "nat \<Rightarrow> nat \<Rightarrow> nat option" where
  "broadcast_dim a b =
     (if a = b then Some a else if a = 1 then Some b else if b = 1 then Some a else None)"

definition stretch :: "nat \<Rightarrow> 'a list \<Rightarrow> 'a list" where
  "stretch n xs = (if length xs = n then xs else replicate n (hd xs))"

definition bzip :: "nat \<Rightarrow> ('a \<Rightarrow> 'b \<Rightarrow> 'c) \<Rightarrow> 'a list \<Rightarrow> 'b list \<Rightarrow> 'c list" where
  "bzip n f xs ys = map2 f (stretch n xs) (stretch n ys)"

definition mul3 :: "fval array3 \<Rightarrow> fval array3 \<Rightarrow> error + fval array3" where
  "mul3 x y =
     (case (shape3 x, shape3 y) of ((a, b, c), (a', b', c')) \<Rightarrow>
        (case broadcast_dim a a' of None \<Rightarrow> Inl ShapeMismatch | Some l \<Rightarrow>
        (case broadcast_dim b b' of None \<Rightarrow> Inl ShapeMismatch | Some m \<Rightarrow>
        (case broadcast_dim c c' of None \<Rightarrow> Inl ShapeMismatch | Some n \<Rightarrow>
           Inr \<lparr>shape3 = (l, m, n),
                data3 = bzip l (bzip m (bzip n fmul)) (data3 x) (data3 y)\<rparr>))))"

definition mul2 :: "fval array2 \<Rightarrow> fval array2 \<Rightarrow> error + fval array2" where
  "mul2 x y =
     (case (shape2 x, shape2 y) of ((a, b), (a', b')) \<Rightarrow>
        (case broadcast_dim a a' of None \<Rightarrow> Inl ShapeMismatch | Some l \<Rightarrow>
        (case broadcast_dim b b' of None \<Rightarrow> Inl ShapeMismatch | Some m \<Rightarrow>
           Inr \<lparr>shape2 = (l, m), data2 = bzip l (bzip m fmul) (data2 x) (data2 y)\<rparr>)))"

text \<open>\<open>np.sum(x, axis=-1)\<close> and \<open>np.sum(x)\<close>.\<close>

definition sum_last :: "fval array3 \<Rightarrow> fval array2" where
  "sum_last x =
     \<lparr>shape2 = (fst (shape3 x), fst (snd (shape3 x))), data2 = map (map fsum) (data3 x)\<rparr>"

definition sum_all :: "fval array2 \<Rightarrow> fval" where
  "sum_all x = fsum (concat (data2 x))"

section \<open>The perplexity computation\<close>

text \<open>
  \<open>tl.one_hot(x, n_categories)\<close> compares every entry of \<open>x\<close> with \<open>arange(n_categories)\<close>
  along a new last axis: the row of an entry \<open>v\<close> holds \<open>1.0\<close> at index \<open>v\<close> and \<open>0.0\<close>
  elsewhere, and is all zeros when \<open>v\<close> is not in \<open>[0, n_categories)\<close>.
\<close>

definition one_hot_row :: "int \<Rightarrow> nat \<Rightarrow> fval list" where
  "one_hot_row v n_categories = map (\<lambda>i. if v = int i then Fin 1 else Fin 0) [0..<n_categories]"

definition one_hot :: "int array2 \<Rightarrow> nat \<Rightarrow> fval array3" where
  "one_hot x n_categories =
     \<lparr>shape3 = (fst (shape2 x), snd (shape2 x), n_categories),
      data3 = map (map (\<lambda>v. one_hot_row v n_categories)) (data2 x)\<rparr>"

text \<open>\<open>reshaped_targets = tl.one_hot(targets, predictions.shape[-1])\<close>\<close>

definition reshaped_targets :: "fval array3 \<Rightarrow> int array2 \<Rightarrow> fval array3" where
  "reshaped_targets predictions targets = one_hot targets (snd (snd (shape3 predictions)))"

text \<open>\<open>total_log_ppx = np.sum(predictions * reshaped_targets, axis= -1)\<close>\<close>

definition total_log_ppx :: "fval array3 \<Rightarrow> int array2 \<Rightarrow> error + fval array2" where
  "total_log_ppx predictions targets =
     (case mul3 predictions (reshaped_targets predictions targets) of
        Inl e \<Rightarrow> Inl e
      | Inr p \<Rightarrow> Inr (sum_last p))"

text \<open>\<open>non_pad = 1.0 - np.equal(targets, 0)\<close>\<close>

definition non_pad :: "int array2 \<Rightarrow> fval array2" where
  "non_pad targets =
     \<lparr>shape2 = shape2 targets,
      data2 = map (map (\<lambda>v. fsub (Fin 1) (if v = 0 then Fin 1 else Fin 0))) (data2 targets)\<rparr>"

text \<open>\<open>real_log_ppx = total_log_ppx * non_pad\<close>, as a function of the selected values.\<close>

definition real_log_ppx :: "fval array2 \<Rightarrow> int array2 \<Rightarrow> error + fval array2" where
  "real_log_ppx tot targets = mul2 tot (non_pad targets)"

text \<open>\<open>log_ppx = np.sum(real_log_ppx) / np.sum(non_pad)\<close> and \<open>log_ppx = -log_ppx\<close>.\<close>

definition log_ppx :: "fval array2 \<Rightarrow> int array2 \<Rightarrow> fval" where
  "log_ppx r targets =
     (let l = fdiv (sum_all r) (sum_all (non_pad targets)) in fneg l)"

text \<open>
  The result is the pair that the last cell prints: \<open>log_ppx\<close> and \<open>np.exp(log_ppx)\<close>.
  The notebook runs its cells in sequence on \<open>predictions\<close> and \<open>targets\<close>; \<open>compute\<close>
  is that sequence, and \<open>finish\<close> is its part after \<open>total_log_ppx\<close>. The only step
  that can raise is the broadcasting of a product; no cell checks the target ids or the
  divisor.
\<close>

record perplexity_result =
  log_perplexity :: fval
  perplexity :: fval

definition finish :: "fval array2 \<Rightarrow> int array2 \<Rightarrow> error + perplexity_result" where
  "finish tot targets =
     (case real_log_ppx tot targets of
        Inl e \<Rightarrow> Inl e
      | Inr r \<Rightarrow>
          (let l = log_ppx r targets
           in Inr \<lparr>log_perplexity = l, perplexity = fexp l\<rparr>))"

definition compute :: "fval array3 \<Rightarrow> int array2 \<Rightarrow> error + perplexity_result" where
  "compute predictions targets =
     (case total_log_ppx predictions targets of
        Inl e \<Rightarrow> Inl e
      | Inr t \<Rightarrow> finish t targets)"

section \<open>Notions the properties are stated with\<close>

text \<open>
  An input batch: predictions of shape \<open>(B, T, V)\<close> and targets of shape \<open>(B, T)\<close>. A
  valid one has finite predictions and every target id in \<open>[0, V)\<close>.
\<close>

definition same_shape :: "fval array3 \<Rightarrow> int array2 \<Rightarrow> nat \<Rightarrow> nat \<Rightarrow> nat \<Rightarrow> bool" where
  "same_shape predictions targets B T V \<longleftrightarrow>
     wf3 predictions \<and> shape3 predictions = (B, T, V) \<and>
     wf2 targets \<and> shape2 targets = (B, T)"

definition in_range :: "int array2 \<Rightarrow> nat \<Rightarrow> bool" where
  "in_range targets V \<longleftrightarrow> (\<forall>r \<in> set (data2 targets). \<forall>v \<in> set r. 0 \<le> v \<and> v < int V)"

definition valid_batch :: "fval array3 \<Rightarrow> int array2 \<Rightarrow> nat \<Rightarrow> nat \<Rightarrow> nat \<Rightarrow> bool" where
  "valid_batch predictions targets B T V \<longleftrightarrow>
     same_shape predictions targets B T V \<and> finite3 predictions \<and> in_range targets V"

text \<open>The target ids of the notebook are 32-bit signed integers.\<close>

definition int32_ids :: "int array2 \<Rightarrow> bool" where
  "int32_ids targets \<longleftrightarrow>
     (\<forall>r \<in> set (data2 targets). \<forall>v \<in> set r. - (2 ^ 31) \<le> v \<and> v < 2 ^ 31)"

text \<open>The positions \<open>(b, t)\<close> whose target is not the pad id 0.\<close>

definition non_pad_positions :: "int array2 \<Rightarrow> (nat \<times> nat) set" where
  "non_pad_positions targets =
     (case shape2 targets of (B, T) \<Rightarrow>
        set (filter (\<lambda>(b, t). data2 targets ! b ! t \<noteq> 0) (List.product [0..<B] [0..<T])))"

text \<open>The direct gather \<open>predictions[b, t, targets[b, t]]\<close>.\<close>

definition gather :: "fval array3 \<Rightarrow> int array2 \<Rightarrow> nat \<Rightarrow> nat \<Rightarrow> fval" where
  "gather predictions targets b t = data3 predictions ! b ! t ! nat (data2 targets ! b ! t)"

text \<open>
  The gather formulation of the first step, as the specification words it: it selects
  \<open>predictions[b, t, targets[b, t]]\<close> at every position, fails with ShapeMismatch when the
  shapes disagree and with IndexOutOfRange when a target id is outside \<open>[0, V)\<close>. The
  remaining steps are those of the notebook.
\<close>

definition selected :: "fval array3 \<Rightarrow> int array2 \<Rightarrow> error + fval array2" where
  "selected predictions targets =
     (case shape3 predictions of (B, T, V) \<Rightarrow>
        if shape2 targets \<noteq> (B, T) then Inl ShapeMismatch
        else if \<not> in_range targets V then Inl IndexOutOfRange
        else Inr \<lparr>shape2 = (B, T),
                  data2 = map2 (map2 (\<lambda>p v. p ! nat v)) (data3 predictions) (data2 targets)\<rparr>)"

definition compute_gather :: "fval array3 \<Rightarrow> int array2 \<Rightarrow> error + perplexity_result" where
  "compute_gather predictions targets =
     (case selected predictions targets of
        Inl e \<Rightarrow> Inl e
      | Inr s \<Rightarrow> finish s targets)"

text \<open>
  Auxiliary notions of the proofs: the value the one-hot product leaves at one position,
  the entry of \<open>non_pad\<close> for one target, and the result built from a log perplexity.
\<close>

definition dot :: "fval list \<Rightarrow> int \<Rightarrow> nat \<Rightarrow> fval" where
  "dot p v n = fsum (bzip n fmul p (one_hot_row v n))"

definition mask :: "int \<Rightarrow> fval" where
  "mask v = (if v = 0 then Fin 0 else Fin 1)"

definition mk_result :: "fval \<Rightarrow> perplexity_result" where
  "mk_result l = \<lparr>log_perplexity = l, perplexity = fexp l\<rparr>"

definition zero_or_nan :: "fval \<Rightarrow> bool" where
  "zero_or_nan x \<longleftrightarrow> x = Fin 0 \<or> x = NaN"

section \<open>Example batches\<close>

text \<open>
  One sequence of three positions over a vocabulary of four: the true classes are 1 and
  2, with log-probabilities \<open>-1\<close> and \<open>-2\<close>, and the last position is padding.
\<close>

definition ex_predictions :: "fval array3" where
  "ex_predictions =
     \<lparr>shape3 = (1, 3, 4),
      data3 = [[[Fin (- 3), Fin (- 1), Fin (- 4), Fin (- 6)],
                [Fin (- 7), Fin (- 3), Fin (- 2), Fin (- 4)],
                [Fin (- 5), Fin (- 2), Fin (- 1), Fin (- 3)]]]\<rparr>"

definition ex_targets :: "int array2" where
  "ex_targets = \<lparr>shape2 = (1, 3), data2 = [[1, 2, 0]]\<rparr>"

text \<open>The same batch with every target the pad id, and with a target id outside \<open>[0, 4)\<close>.\<close>

definition ex_targets_pad :: "int array2" where
  "ex_targets_pad = \<lparr>shape2 = (1, 3), data2 = [[0, 0, 0]]\<rparr>"

definition ex_targets_out :: "int array2" where
  "ex_targets_out = \<lparr>shape2 = (1, 3), data2 = [[1, 7, 0]]\<rparr>"

text \<open>
  One position over a vocabulary of two: the true class 1 has log-probability \<open>-1\<close>, the
  other class has probability zero, that is log-probability \<open>-inf\<close>.
\<close>

definition ex_predictions_inf :: "fval array3" where
  "ex_predictions_inf =
     \<lparr>shape3 = (1, 1, 2), data3 = [[[NInf, Fin (- 1)]]]\<rparr>"

definition ex_targets_one :: "int array2" where
  "ex_targets_one = \<lparr>shape2 = (1, 1), data2 = [[1]]\<rparr>"

text \<open>
  Batches that differ from the first example: lower log-probabilities at the true
  classes; other values at the padding position only; other values at the classes that
  are not the true one only; and a single target that is not padding.
\<close>

definition ex_predictions_low :: "fval array3" where
  "ex_predictions_low =
     \<lparr>shape3 = (1, 3, 4),
      data3 = [[[Fin (- 3), Fin (- 2), Fin (- 4), Fin (- 6)],
                [Fin (- 7), Fin (- 3), Fin (- 4), Fin (- 4)],
                [Fin (- 1), Fin (- 2), Fin (- 1), Fin (- 3)]]]\<rparr>"

definition ex_predictions_pad :: "fval array3" where
  "ex_predictions_pad =
     \<lparr>shape3 = (1, 3, 4),
      data3 = [[[Fin (- 3), Fin (- 1), Fin (- 4), Fin (- 6)],
                [Fin (- 7), Fin (- 3), Fin (- 2), Fin (- 4)],
                [Fin (- 9), Fin (- 8), Fin 0, Fin (- 10)]]]\<rparr>"

definition ex_predictions_other :: "fval array3" where
  "ex_predictions_other =
     \<lparr>shape3 = (1, 3, 4),
      data3 = [[[Fin (- 8), Fin (- 1), Fin 0, Fin (- 2)],
                [Fin (- 1), Fin (- 9), Fin (- 2), Fin (- 7)],
                [Fin (- 5), Fin (- 6), Fin (- 4), Fin (- 8)]]]\<rparr>"



section \<open>Auxiliary lemmas\<close>

lemma exp_80_bound: "exp (80::real) < 2 ^ 128"
proof -
  have "exp (80::real) = exp 1 ^ 80"
    using exp_of_nat_mult[of 80 "1::real"] by simp
  also have "\<dots> \<le> 3 ^ 80"
    by (intro power_mono exp_le) simp
  also have "\<dots> < (2::real) ^ 128"
    by simp
  finally show ?thesis .
qed


lemma fexp_small: "x \<le> 80 \<Longrightarrow> fexp (Fin x) = Fin (exp x)"
proof -
  assume "x \<le> 80"
  then have "exp x \<le> exp (80::real)" by simp
  then have "exp x < 2 ^ 128" using exp_80_bound by linarith
  then show ?thesis by (simp add: fexp.simps(1))
qed


lemma fexp_mono:
  assumes "x \<le> y"
  shows "fle (fexp (Fin x)) (fexp (Fin y))"
proof (cases "exp y < 2 ^ 128")
  case True
  have "exp x \<le> exp y"
    using assms by simp
  with True have "exp x < 2 ^ 128"
    by (rule le_less_trans[rotated])
  then show ?thesis
    using True assms by (simp add: fexp.simps(1))
next
  case False
  then show ?thesis
    by (simp add: fexp.simps(1))
qed

lemma broadcast_dim_same: "broadcast_dim a a = Some a"
  by (simp add: broadcast_dim_def)

lemma bzip_same: "length xs = n \<Longrightarrow> length ys = n \<Longrightarrow> bzip n f xs ys = map2 f xs ys"
  by (simp add: bzip_def stretch_def)

lemma length_bzip: "length xs = n \<Longrightarrow> length ys = n \<Longrightarrow> length (bzip n f xs ys) = n"
  by (simp add: bzip_same)

lemma nth_bzip:
  "length xs = n \<Longrightarrow> length ys = n \<Longrightarrow> i < n \<Longrightarrow> bzip n f xs ys ! i = f (xs ! i) (ys ! i)"
  by (simp add: bzip_same)

lemma same_shape_lengths:
  assumes "same_shape P Tg B T V"
  shows "length (data3 P) = B" "length (data2 Tg) = B"
    "\<And>b. b < B \<Longrightarrow> length (data3 P ! b) = T"
    "\<And>b. b < B \<Longrightarrow> length (data2 Tg ! b) = T"
    "\<And>b t. b < B \<Longrightarrow> t < T \<Longrightarrow> length (data3 P ! b ! t) = V"
proof -
  show a: "length (data3 P) = B" and b: "length (data2 Tg) = B"
    using assms by (auto simp: same_shape_def wf3_def wf2_def)
  show c: "length (data3 P ! b) = T" if "b < B" for b
    using assms that nth_mem[of b "data3 P"] by (auto simp: same_shape_def wf3_def)
  show "length (data2 Tg ! b) = T" if "b < B" for b
    using assms that nth_mem[of b "data2 Tg"] by (auto simp: same_shape_def wf2_def)
  show "length (data3 P ! b ! t) = V" if "b < B" "t < T" for b t
  proof -
    have "data3 P ! b \<in> set (data3 P)"
      using that a by simp
    then have "\<forall>c \<in> set (data3 P ! b). length c = V"
      using assms by (simp add: same_shape_def wf3_def)
    moreover have "data3 P ! b ! t \<in> set (data3 P ! b)"
      using that c by simp
    ultimately show ?thesis by blast
  qed
qed

lemma total_log_ppx_same_shape:
  assumes "same_shape P Tg B T V"
  shows "\<exists>tot. total_log_ppx P Tg = Inr tot \<and> shape2 tot = (B, T) \<and> length (data2 tot) = B \<and>
     (\<forall>b<B. length (data2 tot ! b) = T \<and> (\<forall>t<T. data2 tot ! b ! t = dot (data3 P ! b ! t) (data2 Tg ! b ! t) V))"
proof -
  note L = same_shape_lengths[OF assms]
  have sh: "shape3 P = (B, T, V)" "shape2 Tg = (B, T)"
    using assms by (auto simp: same_shape_def)
  let ?R = "data3 (reshaped_targets P Tg)"
  have R: "?R = map (map (\<lambda>v. one_hot_row v V)) (data2 Tg)"
    by (simp add: reshaped_targets_def one_hot_def sh)
  have shR: "shape3 (reshaped_targets P Tg) = (B, T, V)"
    by (simp add: reshaped_targets_def one_hot_def sh)
  let ?D = "bzip B (bzip T (bzip V fmul)) (data3 P) ?R"
  have m: "mul3 P (reshaped_targets P Tg) = Inr \<lparr>shape3 = (B, T, V), data3 = ?D\<rparr>"
    by (simp add: mul3_def sh shR broadcast_dim_same)
  have lR: "length ?R = B" by (simp add: R L)
  have lRb: "length (?R ! b) = T" if "b < B" for b using that by (simp add: R L)
  have Rbt: "?R ! b ! t = one_hot_row (data2 Tg ! b ! t) V" if "b < B" "t < T" for b t
    using that by (simp add: R L)
  have Db: "?D ! b = bzip T (bzip V fmul) (data3 P ! b) (?R ! b)" if "b < B" for b
    using that L(1) lR by (rule nth_bzip[rotated 2])
  have Dbt: "?D ! b ! t = bzip V fmul (data3 P ! b ! t) (one_hot_row (data2 Tg ! b ! t) V)"
    if "b < B" "t < T" for b t
    using that by (simp add: Db nth_bzip L lRb Rbt)
  have lD: "length ?D = B" using L(1) lR by (rule length_bzip)
  have lDb: "length (?D ! b) = T" if "b < B" for b
    using that by (simp add: Db length_bzip L lRb)
  show ?thesis
    by (simp add: total_log_ppx_def m sum_last_def lD lDb Dbt dot_def)
qed


lemma non_pad_data: "data2 (non_pad Tg) = map (map mask) (data2 Tg)"
  by (simp add: non_pad_def mask_def fsub_def)

lemma non_pad_shape: "shape2 (non_pad Tg) = shape2 Tg"
  by (simp add: non_pad_def)

lemma fsum_map_Fin: "fsum (map Fin xs) = Fin (sum_list xs)"
  by (induction xs) (simp_all add: fsum_def)

lemma sum_list_upt_lessThan: "sum_list (map f [0..<n]) = (\<Sum>i<n. f i)"
  by (simp add: interv_sum_list_conv_sum_set_nat atLeast0LessThan)

lemma sum_list_concat_real: "sum_list (concat xss) = sum_list (map sum_list xss)"
  for xss :: "real list list"
  by (induction xss) simp_all

lemma fsum_concat_Fin:
  assumes "length xss = B"
    and "\<And>b. b < B \<Longrightarrow> length (xss ! b) = T"
    and "\<And>b t. b < B \<Longrightarrow> t < T \<Longrightarrow> xss ! b ! t = Fin (r b t)"
  shows "fsum (concat xss) = Fin (\<Sum>b<B. \<Sum>t<T. r b t)"
proof -
  have row: "xss ! b = map Fin (map (r b) [0..<T])" if "b < B" for b
    using that assms(2,3) by (intro nth_equalityI) simp_all
  have "xss = map (\<lambda>b. map Fin (map (r b) [0..<T])) [0..<B]"
    using assms(1) row by (intro nth_equalityI) simp_all
  then have "concat xss = map Fin (concat (map (\<lambda>b. map (r b) [0..<T]) [0..<B]))"
    by (simp add: map_concat comp_def)
  then show ?thesis
    by (simp add: fsum_map_Fin sum_list_concat_real comp_def sum_list_upt_lessThan)
qed

lemma real_log_ppx_same_shape:
  assumes "shape2 tot = (B, T)" "shape2 Tg = (B, T)" "length (data2 tot) = B"
    "length (data2 Tg) = B"
    "\<And>b. b < B \<Longrightarrow> length (data2 tot ! b) = T"
    "\<And>b. b < B \<Longrightarrow> length (data2 Tg ! b) = T"
  shows "\<exists>r. real_log_ppx tot Tg = Inr r \<and> length (data2 r) = B \<and>
     (\<forall>b<B. length (data2 r ! b) = T \<and>
        (\<forall>t<T. data2 r ! b ! t = fmul (data2 tot ! b ! t) (mask (data2 Tg ! b ! t))))"
proof -
  let ?N = "data2 (non_pad Tg)"
  let ?D = "bzip B (bzip T fmul) (data2 tot) ?N"
  have m: "real_log_ppx tot Tg = Inr \<lparr>shape2 = (B, T), data2 = ?D\<rparr>"
    by (simp add: real_log_ppx_def mul2_def assms(1,2) non_pad_shape broadcast_dim_same)
  have lN: "length ?N = B" by (simp add: non_pad_data assms)
  have lNb: "length (?N ! b) = T" if "b < B" for b
    using that by (simp add: non_pad_data assms)
  have Nbt: "?N ! b ! t = mask (data2 Tg ! b ! t)" if "b < B" "t < T" for b t
    using that by (simp add: non_pad_data assms)
  have Db: "?D ! b = bzip T fmul (data2 tot ! b) (?N ! b)" if "b < B" for b
    using that assms(3) lN by (simp add: nth_bzip)
  have Dbt: "?D ! b ! t = fmul (data2 tot ! b ! t) (mask (data2 Tg ! b ! t))"
    if "b < B" "t < T" for b t
    using that by (simp add: Db nth_bzip assms lNb Nbt)
  have lD: "length ?D = B" using assms(3) lN by (rule length_bzip)
  have lDb: "length (?D ! b) = T" if "b < B" for b
    using that by (simp add: Db length_bzip assms lNb)
  show ?thesis
    by (simp add: m lD lDb Dbt)
qed

lemma non_pad_sum:
  assumes "length (data2 Tg) = B" "\<And>b. b < B \<Longrightarrow> length (data2 Tg ! b) = T"
  shows "sum_all (non_pad Tg) = Fin (\<Sum>b<B. \<Sum>t<T. if data2 Tg ! b ! t = 0 then 0 else 1)"
  unfolding sum_all_def
  by (rule fsum_concat_Fin[where T = T]) (simp_all add: non_pad_data assms mask_def)

lemma compute_Fin:
  assumes sh: "same_shape P Tg B T V"
    and s: "\<And>b t. b < B \<Longrightarrow> t < T \<Longrightarrow> dot (data3 P ! b ! t) (data2 Tg ! b ! t) V = Fin (s b t)"
  shows "compute P Tg =
     Inr (mk_result (fneg (fdiv
        (Fin (\<Sum>b<B. \<Sum>t<T. if data2 Tg ! b ! t = 0 then 0 else s b t))
        (Fin (\<Sum>b<B. \<Sum>t<T. if data2 Tg ! b ! t = 0 then 0 else 1)))))"
proof -
  note L = same_shape_lengths[OF sh]
  have shT: "shape2 Tg = (B, T)" using sh by (simp add: same_shape_def)
  from total_log_ppx_same_shape[OF sh] obtain tot where
    tot: "total_log_ppx P Tg = Inr tot" "shape2 tot = (B, T)" "length (data2 tot) = B"
    and totb: "\<And>b. b < B \<Longrightarrow> length (data2 tot ! b) = T"
    and totbt: "\<And>b t. b < B \<Longrightarrow> t < T \<Longrightarrow>
       data2 tot ! b ! t = dot (data3 P ! b ! t) (data2 Tg ! b ! t) V"
    by blast
  from real_log_ppx_same_shape[OF tot(2) shT tot(3) L(2) totb L(4)] obtain r where
    r: "real_log_ppx tot Tg = Inr r" "length (data2 r) = B"
    and rb: "\<And>b. b < B \<Longrightarrow> length (data2 r ! b) = T"
    and rbt: "\<And>b t. b < B \<Longrightarrow> t < T \<Longrightarrow>
       data2 r ! b ! t = fmul (data2 tot ! b ! t) (mask (data2 Tg ! b ! t))"
    by blast
  have "sum_all r = Fin (\<Sum>b<B. \<Sum>t<T. if data2 Tg ! b ! t = 0 then 0 else s b t)"
    unfolding sum_all_def
    by (rule fsum_concat_Fin[where T = T]) (simp_all add: r rb rbt totbt s mask_def)
  then show ?thesis
    by (simp add: compute_def finish_def tot r log_ppx_def mk_result_def Let_def
        non_pad_sum[of Tg B T, OF L(2) L(4)])
qed

lemma dot_finite:
  assumes "length p = V" "\<forall>x \<in> set p. is_finite x"
  shows "dot p v V = Fin (if 0 \<le> v \<and> v < int V then real_of (p ! nat v) else 0)"
proof -
  have fin: "p ! i = Fin (real_of (p ! i))" if "i < V" for i
  proof -
    have "is_finite (p ! i)" using that assms by simp
    then show ?thesis by (cases "p ! i") simp_all
  qed
  have "bzip V fmul p (one_hot_row v V) =
      map Fin (map (\<lambda>i. if v = int i then real_of (p ! i) else 0) [0..<V])"
  proof (intro nth_equalityI)
    show "length (bzip V fmul p (one_hot_row v V)) =
        length (map Fin (map (\<lambda>i. if v = int i then real_of (p ! i) else 0) [0..<V]))"
      using assms(1) by (simp add: bzip_same one_hot_row_def)
  next
    fix i
    assume "i < length (bzip V fmul p (one_hot_row v V))"
    then have i: "i < V"
      using assms(1) by (simp add: bzip_same one_hot_row_def)
    have "bzip V fmul p (one_hot_row v V) ! i = fmul (Fin (real_of (p ! i))) (one_hot_row v V ! i)"
      using i assms(1) fin[OF i] by (simp add: nth_bzip one_hot_row_def)
    then show "bzip V fmul p (one_hot_row v V) ! i =
        map Fin (map (\<lambda>i. if v = int i then real_of (p ! i) else 0) [0..<V]) ! i"
      using i by (simp add: one_hot_row_def)
  qed
  then have "dot p v V = Fin (\<Sum>i<V. if v = int i then real_of (p ! i) else 0)"
    unfolding dot_def by (simp only: fsum_map_Fin sum_list_upt_lessThan)
  also have "(\<Sum>i<V. if v = int i then real_of (p ! i) else 0) =
      (if 0 \<le> v \<and> v < int V then real_of (p ! nat v) else 0)"
  proof (cases "0 \<le> v")
    case True
    then have "(\<Sum>i<V. if v = int i then real_of (p ! i) else 0) =
        (\<Sum>i\<in>{..<V}. if i = nat v then real_of (p ! i) else 0)"
      by (intro sum.cong) auto
    also have "\<dots> = (if nat v \<in> {..<V} then real_of (p ! nat v) else 0)"
      by (simp only: sum.delta[OF finite_lessThan])
    finally show ?thesis using True by auto
  next
    case False
    then show ?thesis by (auto intro!: sum.neutral)
  qed
  finally show ?thesis .
qed

lemma non_pad_positions_eq:
  assumes "shape2 Tg = (B, T)"
  shows "non_pad_positions Tg = {p \<in> {..<B} \<times> {..<T}. data2 Tg ! fst p ! snd p \<noteq> 0}"
  using assms by (auto simp: non_pad_positions_def)

lemma finite_non_pad_positions: "finite (non_pad_positions Tg)"
  by (simp add: non_pad_positions_def split: prod.splits)

lemma sum_positions:
  fixes f :: "nat \<Rightarrow> nat \<Rightarrow> real"
  assumes "shape2 Tg = (B, T)"
  shows "(\<Sum>b<B. \<Sum>t<T. if data2 Tg ! b ! t = 0 then 0 else f b t) =
     (\<Sum>(b, t) \<in> non_pad_positions Tg. f b t)"
proof -
  have "(\<Sum>b<B. \<Sum>t<T. if data2 Tg ! b ! t = 0 then 0 else f b t) =
      (\<Sum>p \<in> {..<B} \<times> {..<T}. if data2 Tg ! fst p ! snd p \<noteq> 0 then f (fst p) (snd p) else 0)"
    by (simp add: sum.cartesian_product case_prod_unfold) (rule sum.cong, auto)
  also have "\<dots> = (\<Sum>p \<in> {p \<in> {..<B} \<times> {..<T}. data2 Tg ! fst p ! snd p \<noteq> 0}. f (fst p) (snd p))"
    by (rule sum.inter_filter[symmetric]) simp
  finally show ?thesis
    by (simp add: non_pad_positions_eq[OF assms] case_prod_unfold)
qed

lemma count_positions:
  assumes "shape2 Tg = (B, T)"
  shows "(\<Sum>b<B. \<Sum>t<T. if data2 Tg ! b ! t = 0 then 0 else (1::real)) =
     real (card (non_pad_positions Tg))"
  using sum_positions[OF assms, of "\<lambda>b t. 1"] by (simp add: case_prod_unfold)

lemma dot_valid:
  assumes "valid_batch P Tg B T V" "b < B" "t < T"
  shows "dot (data3 P ! b ! t) (data2 Tg ! b ! t) V = gather P Tg b t"
    and "gather P Tg b t = Fin (real_of (gather P Tg b t))"
proof -
  have sh: "same_shape P Tg B T V" and fin: "finite3 P" and rng: "in_range Tg V"
    using assms(1) by (simp_all add: valid_batch_def)
  note L = same_shape_lengths[OF sh]
  have "data3 P ! b \<in> set (data3 P)" "data3 P ! b ! t \<in> set (data3 P ! b)"
    using assms(2,3) L by simp_all
  then have f: "\<forall>x \<in> set (data3 P ! b ! t). is_finite x"
    using fin by (auto simp: finite3_def)
  have "data2 Tg ! b \<in> set (data2 Tg)" "data2 Tg ! b ! t \<in> set (data2 Tg ! b)"
    using assms(2,3) L by simp_all
  then have v: "0 \<le> data2 Tg ! b ! t \<and> data2 Tg ! b ! t < int V"
    using rng by (auto simp: in_range_def)
  then have "nat (data2 Tg ! b ! t) < length (data3 P ! b ! t)"
    using L(5)[OF assms(2,3)] by linarith
  then have "is_finite (gather P Tg b t)"
    using f by (simp add: gather_def)
  then show g: "gather P Tg b t = Fin (real_of (gather P Tg b t))"
    by (cases "gather P Tg b t") simp_all
  have "dot (data3 P ! b ! t) (data2 Tg ! b ! t) V = Fin (real_of (gather P Tg b t))"
    using dot_finite[OF L(5)[OF assms(2,3)] f, of "data2 Tg ! b ! t"] v
    by (simp add: gather_def)
  then show "dot (data3 P ! b ! t) (data2 Tg ! b ! t) V = gather P Tg b t"
    using g by simp
qed

lemma compute_valid:
  assumes "valid_batch P Tg B T V"
  shows "compute P Tg =
     Inr (mk_result (fneg (fdiv
        (Fin (\<Sum>(b, t) \<in> non_pad_positions Tg. real_of (gather P Tg b t)))
        (Fin (real (card (non_pad_positions Tg)))))))"
proof -
  have sh: "same_shape P Tg B T V"
    using assms by (simp add: valid_batch_def)
  have shT: "shape2 Tg = (B, T)"
    using sh by (simp add: same_shape_def)
  have d: "dot (data3 P ! b ! t) (data2 Tg ! b ! t) V = Fin (real_of (gather P Tg b t))"
    if "b < B" "t < T" for b t
    using dot_valid[OF assms that] by simp
  show ?thesis
    using compute_Fin[OF sh d]
    by (simp add: sum_positions[OF shT] count_positions[OF shT])
qed

lemma compute_valid_pos:
  assumes "valid_batch P Tg B T V" "non_pad_positions Tg \<noteq> {}"
  shows "compute P Tg =
     Inr (mk_result (Fin (- ((\<Sum>(b, t) \<in> non_pad_positions Tg. real_of (gather P Tg b t)) /
        real (card (non_pad_positions Tg))))))"
proof -
  have "card (non_pad_positions Tg) \<noteq> 0"
    using assms(2) finite_non_pad_positions by auto
  then show ?thesis
    by (simp add: compute_valid[OF assms(1)])
qed

text \<open>The definitions of the computation, for evaluating it on a concrete batch.\<close>

lemmas eval_defs =
  total_log_ppx_def mul3_def reshaped_targets_def one_hot_def one_hot_row_def
  broadcast_dim_def bzip_def stretch_def sum_last_def fsum_def
  compute_def finish_def real_log_ppx_def mul2_def
  non_pad_def fsub_def log_ppx_def sum_all_def upt_conv_Cons

lemma array2_eqI:
  fixes x y :: "'a array2"
  assumes "shape2 x = shape2 y" "data2 x = data2 y"
  shows "x = y"
  using assms by (cases x, cases y) simp

lemma selected_valid:
  assumes "valid_batch P Tg B T V"
  shows "selected P Tg =
     Inr \<lparr>shape2 = (B, T), data2 = map2 (map2 (\<lambda>p v. p ! nat v)) (data3 P) (data2 Tg)\<rparr>"
  using assms by (simp add: selected_def valid_batch_def same_shape_def)

lemma compute_same_shape:
  assumes sh: "same_shape P Tg B T V"
  shows "\<exists>r. length (data2 r) = B \<and>
     (\<forall>b<B. length (data2 r ! b) = T \<and>
        (\<forall>t<T. data2 r ! b ! t =
           fmul (dot (data3 P ! b ! t) (data2 Tg ! b ! t) V) (mask (data2 Tg ! b ! t)))) \<and>
     compute P Tg = Inr (mk_result (fneg (fdiv (sum_all r) (sum_all (non_pad Tg)))))"
proof -
  note L = same_shape_lengths[OF sh]
  have shT: "shape2 Tg = (B, T)" using sh by (simp add: same_shape_def)
  from total_log_ppx_same_shape[OF sh] obtain tot where
    tot: "total_log_ppx P Tg = Inr tot" "shape2 tot = (B, T)" "length (data2 tot) = B"
    and totb: "\<And>b. b < B \<Longrightarrow> length (data2 tot ! b) = T"
    and totbt: "\<And>b t. b < B \<Longrightarrow> t < T \<Longrightarrow>
       data2 tot ! b ! t = dot (data3 P ! b ! t) (data2 Tg ! b ! t) V"
    by blast
  from real_log_ppx_same_shape[OF tot(2) shT tot(3) L(2) totb L(4)] obtain r where
    r: "real_log_ppx tot Tg = Inr r" "length (data2 r) = B"
    and rb: "\<And>b. b < B \<Longrightarrow> length (data2 r ! b) = T"
    and rbt: "\<And>b t. b < B \<Longrightarrow> t < T \<Longrightarrow>
       data2 r ! b ! t = fmul (data2 tot ! b ! t) (mask (data2 Tg ! b ! t))"
    by blast
  have "compute P Tg = Inr (mk_result (fneg (fdiv (sum_all r) (sum_all (non_pad Tg)))))"
    by (simp add: compute_def finish_def tot r log_ppx_def mk_result_def Let_def)
  then show ?thesis
    using r(2) rb rbt totbt by auto
qed

lemma zero_or_nan_fmul: "zero_or_nan (fmul x (Fin 0))"
  by (cases x) (simp_all add: zero_or_nan_def)

lemma zero_or_nan_fadd: "zero_or_nan x \<Longrightarrow> zero_or_nan y \<Longrightarrow> zero_or_nan (fadd x y)"
  by (auto simp: zero_or_nan_def)

lemma zero_or_nan_fsum: "\<forall>x \<in> set xs. zero_or_nan x \<Longrightarrow> zero_or_nan (fsum xs)"
proof (induction xs)
  case Nil
  show ?case by (simp add: fsum_def zero_or_nan_def)
next
  case (Cons x xs)
  then have "zero_or_nan x" "zero_or_nan (fsum xs)" by simp_all
  then have "zero_or_nan (fadd x (fsum xs))" by (rule zero_or_nan_fadd)
  then show ?case by (simp add: fsum_def)
qed

lemma fdiv_zero_or_nan: "zero_or_nan x \<Longrightarrow> fdiv x (Fin 0) = NaN"
  by (auto simp: zero_or_nan_def)

lemma non_pad_positions_empty:
  assumes "shape2 Tg = (B, T)" "non_pad_positions Tg = {}" "b < B" "t < T"
  shows "data2 Tg ! b ! t = 0"
proof (rule ccontr)
  assume "data2 Tg ! b ! t \<noteq> 0"
  then have "(b, t) \<in> non_pad_positions Tg"
    using assms(3,4) by (simp add: non_pad_positions_eq[OF assms(1)])
  then show False using assms(2) by simp
qed

lemma ex_valid: "valid_batch ex_predictions ex_targets 1 3 4"
  by (simp add: valid_batch_def same_shape_def wf3_def wf2_def finite3_def in_range_def
      ex_predictions_def ex_targets_def)

lemma ex_positions: "non_pad_positions ex_targets = {(0, 0), (0, 1)}"
  by code_simp





lemma ex_compute:
  "compute ex_predictions ex_targets =
     Inr \<lparr>log_perplexity = Fin (3 / 2), perplexity = Fin (exp (3 / 2))\<rparr>"
  by (simp add: eval_defs fexp_small ex_predictions_def ex_targets_def)

lemma ex_pad_shape: "same_shape ex_predictions ex_targets_pad 1 3 4"
  by (simp add: same_shape_def wf3_def wf2_def ex_predictions_def ex_targets_pad_def)

lemma ex_pad_positions: "non_pad_positions ex_targets_pad = {}"
  by code_simp

lemma non_pad_positions_bounds:
  assumes "shape2 Tg = (B, T)" "(b, t) \<in> non_pad_positions Tg"
  shows "b < B" "t < T"
  using assms by (simp_all add: non_pad_positions_eq[OF assms(1)])

lemma ex_low_valid: "valid_batch ex_predictions_low ex_targets 1 3 4"
  by (simp add: valid_batch_def same_shape_def wf3_def wf2_def finite3_def in_range_def
      ex_predictions_low_def ex_targets_def)



lemma compute_cong:
  assumes "valid_batch P1 Tg B T V" "valid_batch P2 Tg B T V"
    and "\<And>b t. (b, t) \<in> non_pad_positions Tg \<Longrightarrow> gather P1 Tg b t = gather P2 Tg b t"
  shows "compute P1 Tg = compute P2 Tg"
proof -
  have "(\<Sum>p \<in> non_pad_positions Tg. real_of (gather P1 Tg (fst p) (snd p))) =
      (\<Sum>p \<in> non_pad_positions Tg. real_of (gather P2 Tg (fst p) (snd p)))"
    by (rule sum.cong) (simp_all add: assms(3))
  then show ?thesis
    by (simp add: compute_valid[OF assms(1)] compute_valid[OF assms(2)] case_prod_unfold)
qed

lemma ex_pad_valid: "valid_batch ex_predictions_pad ex_targets 1 3 4"
  by (simp add: valid_batch_def same_shape_def wf3_def wf2_def finite3_def in_range_def
      ex_predictions_pad_def ex_targets_def)

lemma ex_other_valid: "valid_batch ex_predictions_other ex_targets 1 3 4"
  by (simp add: valid_batch_def same_shape_def wf3_def wf2_def finite3_def in_range_def
      ex_predictions_other_def ex_targets_def)

text \<open>Whatever the input, the broadcasting error is the only one.\<close>

lemma compute_raises_shape_mismatch_only: "compute P Tg = Inl e \<Longrightarrow> e = ShapeMismatch"
  by (auto simp: compute_def finish_def total_log_ppx_def real_log_ppx_def mul3_def mul2_def
      Let_def split: sum.splits option.splits prod.splits)

section \<open>One-hot product and gather\<close>

text \<open>
  C2 (amended): for predictions of shape \<open>(B, T, V)\<close> with finite entries and targets of
  shape \<open>(B, T)\<close> with entries in \<open>[0, V)\<close>, the one-hot formulation of the notebook, which
  sums the elementwise product with the one-hot rows over the vocabulary axis, yields at
  every position \<open>(b, t)\<close> the value of the direct gather
  \<open>predictions[b, t, targets[b, t]]\<close>, so the two formulations return the same result.
\<close>

theorem one_hot_equals_gather:
  assumes "valid_batch predictions targets B T V"
  shows "\<exists>tot. total_log_ppx predictions targets = Inr tot \<and>
     selected predictions targets = Inr tot \<and>
     (\<forall>b<B. \<forall>t<T. data2 tot ! b ! t = gather predictions targets b t) \<and>
     compute predictions targets = compute_gather predictions targets"
proof -
  have sh: "same_shape predictions targets B T V"
    using assms by (simp add: valid_batch_def)
  note L = same_shape_lengths[OF sh]
  from total_log_ppx_same_shape[OF sh] obtain tot where
    tot: "total_log_ppx predictions targets = Inr tot" "shape2 tot = (B, T)"
      "length (data2 tot) = B"
    and totb: "\<And>b. b < B \<Longrightarrow> length (data2 tot ! b) = T"
    and totbt: "\<And>b t. b < B \<Longrightarrow> t < T \<Longrightarrow>
       data2 tot ! b ! t = dot (data3 predictions ! b ! t) (data2 targets ! b ! t) V"
    by blast
  have g: "data2 tot ! b ! t = gather predictions targets b t" if "b < B" "t < T" for b t
    using totbt[OF that] dot_valid(1)[OF assms that] by simp
  let ?S = "map2 (map2 (\<lambda>p v. p ! nat v)) (data3 predictions) (data2 targets)"
  have row: "data2 tot ! b = ?S ! b" if "b < B" for b
  proof (rule nth_equalityI)
    show "length (data2 tot ! b) = length (?S ! b)"
      using that L totb by simp
  next
    fix t
    assume "t < length (data2 tot ! b)"
    then have "t < T" using that totb by simp
    then show "data2 tot ! b ! t = ?S ! b ! t"
      using that L g[OF that] by (simp add: gather_def)
  qed
  have "data2 tot = ?S"
    using tot(3) L row by (intro nth_equalityI) simp_all
  then have "tot = \<lparr>shape2 = (B, T), data2 = ?S\<rparr>"
    using tot(2) by (intro array2_eqI) simp_all
  then have s: "selected predictions targets = Inr tot"
    using selected_valid[OF assms] by simp
  show ?thesis
    using tot(1) s g by (simp add: compute_def compute_gather_def)
qed

theorem one_hot_equals_gather_witness:
  "valid_batch ex_predictions ex_targets 1 3 4 \<and>
   total_log_ppx ex_predictions ex_targets =
     Inr \<lparr>shape2 = (1, 3), data2 = [[Fin (- 1), Fin (- 2), Fin (- 5)]]\<rparr> \<and>
   compute_gather ex_predictions ex_targets =
     Inr \<lparr>log_perplexity = Fin (3 / 2), perplexity = Fin (exp (3 / 2))\<rparr>"
proof -
  from one_hot_equals_gather[OF ex_valid] obtain tot where
    t: "total_log_ppx ex_predictions ex_targets = Inr tot"
    and s: "selected ex_predictions ex_targets = Inr tot"
    and c: "compute ex_predictions ex_targets = compute_gather ex_predictions ex_targets"
    by blast
  have "selected ex_predictions ex_targets =
      Inr \<lparr>shape2 = (1, 3), data2 = [[Fin (- 1), Fin (- 2), Fin (- 5)]]\<rparr>"
    by (simp add: selected_def in_range_def ex_predictions_def ex_targets_def)
  then have 1: "total_log_ppx ex_predictions ex_targets =
      Inr \<lparr>shape2 = (1, 3), data2 = [[Fin (- 1), Fin (- 2), Fin (- 5)]]\<rparr>"
    using t s by simp
  show ?thesis using ex_valid 1 c ex_compute by simp
qed

text \<open>
  C2, as stated for every predictions array: it fails when an entry is not finite. With
  \<open>-inf\<close> at a class that is not the true one, the one-hot product holds \<open>-inf * 0\<close>,
  which is NaN, while the gather reads the finite entry of the true class.
\<close>

theorem one_hot_gather_differ_counterexample:
  "same_shape ex_predictions_inf ex_targets_one 1 1 2 \<and> in_range ex_targets_one 2 \<and>
   total_log_ppx ex_predictions_inf ex_targets_one = Inr \<lparr>shape2 = (1, 1), data2 = [[NaN]]\<rparr> \<and>
   gather ex_predictions_inf ex_targets_one 0 0 = Fin (- 1) \<and>
   compute ex_predictions_inf ex_targets_one =
     Inr \<lparr>log_perplexity = NaN, perplexity = NaN\<rparr> \<and>
   compute_gather ex_predictions_inf ex_targets_one =
     Inr \<lparr>log_perplexity = Fin 1, perplexity = Fin (exp 1)\<rparr>"
  by (simp add: eval_defs fexp_small same_shape_def wf3_def wf2_def in_range_def gather_def
      compute_gather_def selected_def ex_predictions_inf_def ex_targets_one_def)

section \<open>Errors the computation does not raise\<close>

text \<open>
  C3 (amended): for every input batch of shapes \<open>(B, T, V)\<close> and \<open>(B, T)\<close> in which every
  target equals the pad id 0, so that the non-pad count is 0, \<open>compute\<close> does not fail: it
  returns a result whose log perplexity and perplexity are both NaN.
\<close>

theorem all_pad_returns_nan:
  assumes "same_shape predictions targets B T V"
    and "non_pad_positions targets = {}"
  shows "compute predictions targets = Inr \<lparr>log_perplexity = NaN, perplexity = NaN\<rparr>"
proof -
  note L = same_shape_lengths[OF assms(1)]
  have shT: "shape2 targets = (B, T)"
    using assms(1) by (simp add: same_shape_def)
  from compute_same_shape[OF assms(1)] obtain r where
    r: "length (data2 r) = B"
    and rb: "\<And>b. b < B \<Longrightarrow> length (data2 r ! b) = T"
    and rbt: "\<And>b t. b < B \<Longrightarrow> t < T \<Longrightarrow> data2 r ! b ! t =
       fmul (dot (data3 predictions ! b ! t) (data2 targets ! b ! t) V) (mask (data2 targets ! b ! t))"
    and c: "compute predictions targets =
       Inr (mk_result (fneg (fdiv (sum_all r) (sum_all (non_pad targets)))))"
    by blast
  have "zero_or_nan x" if "x \<in> set (concat (data2 r))" for x
  proof -
    from that obtain row where row: "row \<in> set (data2 r)" "x \<in> set row"
      by auto
    from row(1) obtain b where b: "b < B" "row = data2 r ! b"
      using r by (auto simp: in_set_conv_nth)
    from row(2) obtain t where t: "t < T" "x = row ! t"
      using rb[OF b(1)] b(2) by (auto simp: in_set_conv_nth)
    have "data2 targets ! b ! t = 0"
      using non_pad_positions_empty[OF shT assms(2) b(1) t(1)] .
    then show ?thesis
      using rbt[OF b(1) t(1)] b(2) t(2) by (simp add: mask_def zero_or_nan_fmul)
  qed
  then have z: "zero_or_nan (sum_all r)"
    unfolding sum_all_def by (intro zero_or_nan_fsum) simp
  have "sum_all (non_pad targets) = Fin (real (card (non_pad_positions targets)))"
    using non_pad_sum[of targets B T, OF L(2) L(4)] by (simp add: count_positions[OF shT])
  then have "sum_all (non_pad targets) = Fin 0"
    using assms(2) by simp
  then show ?thesis
    using c fdiv_zero_or_nan[OF z] by (simp add: mk_result_def)
qed

theorem all_pad_returns_nan_witness:
  "same_shape ex_predictions ex_targets_pad 1 3 4 \<and> non_pad_positions ex_targets_pad = {} \<and>
   compute ex_predictions ex_targets_pad = Inr \<lparr>log_perplexity = NaN, perplexity = NaN\<rparr>"
  using all_pad_returns_nan[OF ex_pad_shape ex_pad_positions] ex_pad_shape ex_pad_positions
  by simp

text \<open>
  C3, as stated: the batch of padding only does not fail with DivisionByZero; the division
  \<open>0.0 / 0.0\<close> of the float arrays returns NaN.
\<close>

theorem all_pad_no_error_counterexample:
  "compute ex_predictions ex_targets_pad \<noteq> Inl DivisionByZero \<and>
   compute ex_predictions ex_targets_pad = Inr \<lparr>log_perplexity = NaN, perplexity = NaN\<rparr>"
  by (simp add: eval_defs ex_predictions_def ex_targets_pad_def)

text \<open>
  C4 (amended): for every input batch of shapes \<open>(B, T, V)\<close> and \<open>(B, T)\<close> that contains a
  target id, a 32-bit integer, outside \<open>[0, V)\<close>, \<open>compute\<close> does not fail: it returns a
  result. At a position whose id is outside \<open>[0, V)\<close> the one-hot row is all zeros, so
  with finite predictions \<open>total_log_ppx\<close> is 0 there, and \<open>non_pad\<close> is 1 there when the
  id is not 0.
\<close>

theorem out_of_range_target_no_error:
  assumes "same_shape predictions targets B T V"
    and "int32_ids targets"
    and "V < 2 ^ 31"
    and "\<not> in_range targets V"
  shows "\<exists>r tot. compute predictions targets = Inr r \<and>
     total_log_ppx predictions targets = Inr tot \<and>
     (\<forall>b<B. \<forall>t<T.
        \<not> (0 \<le> data2 targets ! b ! t \<and> data2 targets ! b ! t < int V) \<longrightarrow>
        (finite3 predictions \<longrightarrow> data2 tot ! b ! t = Fin 0) \<and>
        (data2 targets ! b ! t \<noteq> 0 \<longrightarrow> data2 (non_pad targets) ! b ! t = Fin 1))"
proof -
  note L = same_shape_lengths[OF assms(1)]
  from compute_same_shape[OF assms(1)] obtain l where
    c: "compute predictions targets = Inr (mk_result l)"
    by blast
  from total_log_ppx_same_shape[OF assms(1)] obtain tot where
    tot: "total_log_ppx predictions targets = Inr tot"
    and totbt: "\<And>b t. b < B \<Longrightarrow> t < T \<Longrightarrow>
       data2 tot ! b ! t = dot (data3 predictions ! b ! t) (data2 targets ! b ! t) V"
    by blast
  have zero: "data2 tot ! b ! t = Fin 0"
    if "b < B" "t < T" "finite3 predictions"
      "\<not> (0 \<le> data2 targets ! b ! t \<and> data2 targets ! b ! t < int V)" for b t
  proof -
    have "data3 predictions ! b \<in> set (data3 predictions)"
      "data3 predictions ! b ! t \<in> set (data3 predictions ! b)"
      using that(1,2) L by simp_all
    then have f: "\<forall>x \<in> set (data3 predictions ! b ! t). is_finite x"
      using that(3) by (auto simp: finite3_def)
    show ?thesis
      using dot_finite[OF L(5)[OF that(1,2)] f, of "data2 targets ! b ! t"] that(4)
        totbt[OF that(1,2)]
      by simp
  qed
  have one: "data2 (non_pad targets) ! b ! t = Fin 1"
    if "b < B" "t < T" "data2 targets ! b ! t \<noteq> 0" for b t
    using that L by (simp add: non_pad_data mask_def)
  show ?thesis
    using c tot zero one by blast
qed

theorem out_of_range_target_no_error_witness:
  "same_shape ex_predictions ex_targets_out 1 3 4 \<and> int32_ids ex_targets_out \<and>
   \<not> in_range ex_targets_out 4 \<and> finite3 ex_predictions \<and>
   (\<exists>r tot. compute ex_predictions ex_targets_out = Inr r \<and>
      total_log_ppx ex_predictions ex_targets_out = Inr tot \<and>
      data2 tot ! 0 ! 1 = Fin 0 \<and> data2 (non_pad ex_targets_out) ! 0 ! 1 = Fin 1)"
proof -
  have 1: "same_shape ex_predictions ex_targets_out 1 3 4"
    by (simp add: same_shape_def wf3_def wf2_def ex_predictions_def ex_targets_out_def)
  have 2: "int32_ids ex_targets_out"
    by (simp add: int32_ids_def ex_targets_out_def)
  have 3: "(4::nat) < 2 ^ 31"
    by simp
  have 4: "\<not> in_range ex_targets_out 4"
    by (simp add: in_range_def ex_targets_out_def)
  have 5: "finite3 ex_predictions"
    by (simp add: finite3_def ex_predictions_def)
  have 6: "\<not> (0 \<le> data2 ex_targets_out ! 0 ! 1 \<and> data2 ex_targets_out ! 0 ! 1 < int 4)"
    "data2 ex_targets_out ! 0 ! 1 \<noteq> 0"
    by (simp_all add: ex_targets_out_def)
  from out_of_range_target_no_error[OF 1 2 3 4] obtain r tot where
    r: "compute ex_predictions ex_targets_out = Inr r"
    and t: "total_log_ppx ex_predictions ex_targets_out = Inr tot"
    and a: "\<forall>b<1. \<forall>t<3.
        \<not> (0 \<le> data2 ex_targets_out ! b ! t \<and> data2 ex_targets_out ! b ! t < int 4) \<longrightarrow>
        (finite3 ex_predictions \<longrightarrow> data2 tot ! b ! t = Fin 0) \<and>
        (data2 ex_targets_out ! b ! t \<noteq> 0 \<longrightarrow> data2 (non_pad ex_targets_out) ! b ! t = Fin 1)"
    by blast
  have "data2 tot ! 0 ! 1 = Fin 0 \<and> data2 (non_pad ex_targets_out) ! 0 ! 1 = Fin 1"
    using a[rule_format, of 0 1] 5 6 by simp
  then show ?thesis
    using 1 2 4 5 r t by blast
qed

text \<open>
  C4, as stated: a target id outside \<open>[0, V)\<close> does not make the computation fail with
  IndexOutOfRange. Here the id 7 over a vocabulary of four adds 0 to the total and 1 to
  the count.
\<close>

theorem out_of_range_target_counterexample:
  "\<not> in_range ex_targets_out 4 \<and>
   compute ex_predictions ex_targets_out \<noteq> Inl IndexOutOfRange \<and>
   compute ex_predictions ex_targets_out =
     Inr \<lparr>log_perplexity = Fin (1 / 2), perplexity = Fin (exp (1 / 2))\<rparr>"
  by (simp add: eval_defs fexp_small in_range_def ex_predictions_def ex_targets_out_def)

section \<open>A single token\<close>




section \<open>What the result does not depend on\<close>

text \<open>
  C9: for every two valid input batches with identical targets and at least one non-pad
  token, whose predictions (finite everywhere) agree at every non-pad position, \<open>compute\<close>
  returns the same result: the predictions at the positions whose target is the pad id
  have no influence.
\<close>

theorem pad_positions_no_influence:
  assumes "valid_batch predictions1 targets B T V"
    and "valid_batch predictions2 targets B T V"
    and "non_pad_positions targets \<noteq> {}"
    and "\<forall>(b, t) \<in> non_pad_positions targets.
       data3 predictions1 ! b ! t = data3 predictions2 ! b ! t"
  shows "compute predictions1 targets = compute predictions2 targets"
proof (rule compute_cong[OF assms(1,2)])
  fix b t
  assume "(b, t) \<in> non_pad_positions targets"
  then have "data3 predictions1 ! b ! t = data3 predictions2 ! b ! t"
    using assms(4) by blast
  then show "gather predictions1 targets b t = gather predictions2 targets b t"
    by (simp add: gather_def)
qed

theorem pad_positions_no_influence_witness:
  "valid_batch ex_predictions ex_targets 1 3 4 \<and> valid_batch ex_predictions_pad ex_targets 1 3 4 \<and>
   data3 ex_predictions ! 0 ! 2 \<noteq> data3 ex_predictions_pad ! 0 ! 2 \<and>
   compute ex_predictions ex_targets = compute ex_predictions_pad ex_targets"
proof -
  have p: "non_pad_positions ex_targets \<noteq> {}"
    by (simp add: ex_positions)
  have g: "\<forall>(b, t) \<in> non_pad_positions ex_targets.
      data3 ex_predictions ! b ! t = data3 ex_predictions_pad ! b ! t"
    unfolding ex_positions by (simp add: ex_predictions_def ex_predictions_pad_def)
  have "data3 ex_predictions ! 0 ! 2 \<noteq> data3 ex_predictions_pad ! 0 ! 2"
    by (simp add: ex_predictions_def ex_predictions_pad_def)
  then show ?thesis
    using pad_positions_no_influence[OF ex_valid ex_pad_valid p g] ex_valid ex_pad_valid
    by simp
qed

text \<open>
  C10: for every two valid input batches with identical targets and at least one non-pad
  token, whose predictions agree at every position \<open>(b, t)\<close> in the entry of the true token
  \<open>targets[b, t]\<close>, \<open>compute\<close> returns the same result: the entries of the other classes
  have no influence.
\<close>

theorem other_classes_no_influence:
  assumes "valid_batch predictions1 targets B T V"
    and "valid_batch predictions2 targets B T V"
    and "non_pad_positions targets \<noteq> {}"
    and "\<forall>b<B. \<forall>t<T. gather predictions1 targets b t = gather predictions2 targets b t"
  shows "compute predictions1 targets = compute predictions2 targets"
proof (rule compute_cong[OF assms(1,2)])
  fix b t
  assume "(b, t) \<in> non_pad_positions targets"
  moreover have "shape2 targets = (B, T)"
    using assms(1) by (simp add: valid_batch_def same_shape_def)
  ultimately have "b < B" "t < T"
    by (rule non_pad_positions_bounds[rotated])+
  then show "gather predictions1 targets b t = gather predictions2 targets b t"
    using assms(4) by blast
qed

theorem other_classes_no_influence_witness:
  "valid_batch ex_predictions ex_targets 1 3 4 \<and>
   valid_batch ex_predictions_other ex_targets 1 3 4 \<and>
   data3 ex_predictions ! 0 ! 0 ! 0 \<noteq> data3 ex_predictions_other ! 0 ! 0 ! 0 \<and>
   compute ex_predictions ex_targets = compute ex_predictions_other ex_targets"
proof -
  have p: "non_pad_positions ex_targets \<noteq> {}"
    by (simp add: ex_positions)
  have "gather ex_predictions ex_targets 0 t = gather ex_predictions_other ex_targets 0 t"
    if "t < 3" for t
  proof -
    from that have "t = 0 \<or> t = 1 \<or> t = 2" by auto
    then show ?thesis
      by (auto simp: gather_def ex_predictions_def ex_predictions_other_def ex_targets_def)
  qed
  then have g: "\<forall>b<1. \<forall>t<3.
      gather ex_predictions ex_targets b t = gather ex_predictions_other ex_targets b t"
    by simp
  have "data3 ex_predictions ! 0 ! 0 ! 0 \<noteq> data3 ex_predictions_other ! 0 ! 0 ! 0"
    by (simp add: ex_predictions_def ex_predictions_other_def)
  then show ?thesis
    using other_classes_no_influence[OF ex_valid ex_other_valid p g] ex_valid ex_other_valid
    by simp
qed

section \<open>Monotonicity\<close>

text \<open>
  C6: for every two valid input batches with identical targets and at least one non-pad
  token, if at every non-pad position the true-class log-probability of the first batch is
  greater than or equal to that of the second, then the log perplexity of the first is
  less than or equal to that of the second, and so is its perplexity.
\<close>

theorem higher_log_probs_lower_perplexity:
  assumes "valid_batch predictions1 targets B T V"
    and "valid_batch predictions2 targets B T V"
    and "non_pad_positions targets \<noteq> {}"
    and "\<forall>(b, t) \<in> non_pad_positions targets.
       fle (gather predictions2 targets b t) (gather predictions1 targets b t)"
  shows "\<exists>r1 r2. compute predictions1 targets = Inr r1 \<and> compute predictions2 targets = Inr r2 \<and>
     fle (log_perplexity r1) (log_perplexity r2) \<and> fle (perplexity r1) (perplexity r2)"
proof -
  let ?S = "non_pad_positions targets"
  have shT: "shape2 targets = (B, T)"
    using assms(1) by (simp add: valid_batch_def same_shape_def)
  have le: "real_of (gather predictions2 targets b t) \<le> real_of (gather predictions1 targets b t)"
    if "(b, t) \<in> ?S" for b t
  proof -
    note bt = non_pad_positions_bounds[OF shT that]
    have "fle (gather predictions2 targets b t) (gather predictions1 targets b t)"
      using assms(4) that by blast
    then have "fle (Fin (real_of (gather predictions2 targets b t)))
        (Fin (real_of (gather predictions1 targets b t)))"
      using dot_valid(2)[OF assms(1) bt] dot_valid(2)[OF assms(2) bt] by simp
    then show ?thesis by simp
  qed
  have "(\<Sum>p \<in> ?S. real_of (gather predictions2 targets (fst p) (snd p))) \<le>
      (\<Sum>p \<in> ?S. real_of (gather predictions1 targets (fst p) (snd p)))"
    by (rule sum_mono) (simp add: le)
  then have s: "(\<Sum>(b, t) \<in> ?S. real_of (gather predictions2 targets b t)) \<le>
      (\<Sum>(b, t) \<in> ?S. real_of (gather predictions1 targets b t))"
    by (simp add: case_prod_unfold)
  have "0 < real (card ?S)"
    using assms(3) finite_non_pad_positions[of targets] by (simp add: card_gt_0_iff)
  then have "(\<Sum>(b, t) \<in> ?S. real_of (gather predictions2 targets b t)) / real (card ?S) \<le>
      (\<Sum>(b, t) \<in> ?S. real_of (gather predictions1 targets b t)) / real (card ?S)"
    using s by (simp add: divide_right_mono)
  then have le: "- ((\<Sum>(b, t) \<in> ?S. real_of (gather predictions1 targets b t)) / real (card ?S)) \<le>
      - ((\<Sum>(b, t) \<in> ?S. real_of (gather predictions2 targets b t)) / real (card ?S))"
    by simp
  show ?thesis
    using le fexp_mono[OF le]
    by (simp add: compute_valid_pos[OF assms(1,3)] compute_valid_pos[OF assms(2,3)] mk_result_def)
qed

theorem higher_log_probs_lower_perplexity_witness:
  "valid_batch ex_predictions ex_targets 1 3 4 \<and> valid_batch ex_predictions_low ex_targets 1 3 4 \<and>
   compute ex_predictions_low ex_targets =
     Inr \<lparr>log_perplexity = Fin 3, perplexity = Fin (exp 3)\<rparr> \<and>
   (\<exists>r1 r2. compute ex_predictions ex_targets = Inr r1 \<and>
      compute ex_predictions_low ex_targets = Inr r2 \<and>
      fle (log_perplexity r1) (log_perplexity r2) \<and> fle (perplexity r1) (perplexity r2))"
proof -
  have p: "non_pad_positions ex_targets \<noteq> {}"
    by (simp add: ex_positions)
  have g: "\<forall>(b, t) \<in> non_pad_positions ex_targets.
      fle (gather ex_predictions_low ex_targets b t) (gather ex_predictions ex_targets b t)"
    unfolding ex_positions
    by (simp add: gather_def ex_predictions_def ex_predictions_low_def ex_targets_def)
  have "compute ex_predictions_low ex_targets =
      Inr \<lparr>log_perplexity = Fin 3, perplexity = Fin (exp 3)\<rparr>"
    by (simp add: eval_defs fexp_small ex_predictions_low_def ex_targets_def)
  then show ?thesis
    using higher_log_probs_lower_perplexity[OF ex_valid ex_low_valid p g] ex_valid ex_low_valid
    by simp
qed

end
